theory Spec2Isabelle
  imports Main "HOL-Library.Word"
begin

section \<open>Python strings, as far as the tool server uses them\<close>

text \<open>
  A Python \<open>str\<close> is modelled as a \<open>string\<close>: a list of characters whose code points lie
  below 256 (ASCII and Latin-1). On these code points the string methods used by
  \<open>app.py\<close> and \<open>mcp_client.py\<close> behave as follows.
\<close>

text \<open>\<open>str.isspace\<close> on one character: TAB..CR, FS..US, space, NEL and NBSP.\<close>

definition py_isspace :: "char \<Rightarrow> bool" where
  "py_isspace c =
     (let n = (of_char c :: nat)
      in (9 \<le> n \<and> n \<le> 13) \<or> (28 \<le> n \<and> n \<le> 32) \<or> n = 133 \<or> n = 160)"

text \<open>\<open>str.lower\<close> on one character: A..Z and the Latin-1 capitals (all of
  U+00C0..U+00DE but the multiplication sign) move up by 32.\<close>

definition lower_char :: "char \<Rightarrow> char" where
  "lower_char c =
     (let n = (of_char c :: nat)
      in if (65 \<le> n \<and> n \<le> 90) \<or> (192 \<le> n \<and> n \<le> 222 \<and> n \<noteq> 215)
         then char_of (n + 32) else c)"

definition lower :: "string \<Rightarrow> string" where
  "lower s = map lower_char s"

text \<open>\<open>str.strip()\<close> without argument removes leading and trailing whitespace.\<close>

definition strip :: "string \<Rightarrow> string" where
  "strip s = rev (dropWhile py_isspace (rev (dropWhile py_isspace s)))"

text \<open>\<open>s.endswith(suffix)\<close>.\<close>

definition endswith :: "string \<Rightarrow> string \<Rightarrow> bool" where
  "endswith s suffix =
     (length suffix \<le> length s \<and> drop (length s - length suffix) s = suffix)"

text \<open>The decimal digits \<open>0\<close>..\<open>9\<close>, which is what \<open>\d\<close> matches below code point 256.\<close>

definition is_digit :: "char \<Rightarrow> bool" where
  "is_digit c = (let n = (of_char c :: nat) in 48 \<le> n \<and> n \<le> 57)"

definition digit_char :: "nat \<Rightarrow> char" where
  "digit_char d = char_of (48 + d)"

text \<open>\<open>str(n)\<close> of a natural number.\<close>

fun dec :: "nat \<Rightarrow> string" where
  "dec n = (if n < 10 then [digit_char n] else dec (n div 10) @ [digit_char (n mod 10)])"

declare dec.simps [simp del]

text \<open>Zero padding on the left up to a width, as \<open>%02d\<close> does.\<close>

definition zfill :: "nat \<Rightarrow> string \<Rightarrow> string" where
  "zfill w s = replicate (w - length s) (CHR ''0'') @ s"

section \<open>Patterns\<close>

text \<open>
  The patterns of the specification (\<open>report_\d{8}_\d{6}\.pdf\<close> and \<open>YYYY-MM-DD\<close>) are
  sequences of literal text and fixed-length runs of digits. \<open>fullmatch\<close> decides whether
  a string is matched as a whole.
\<close>

datatype piece = Lit string | Digits nat

fun fullmatch :: "piece list \<Rightarrow> string \<Rightarrow> bool" where
  "fullmatch [] s = (s = [])"
| "fullmatch (Lit l # ps) s =
     (length l \<le> length s \<and> take (length l) s = l \<and> fullmatch ps (drop (length l) s))"
| "fullmatch (Digits n # ps) s =
     (n \<le> length s \<and> list_all is_digit (take n s) \<and> fullmatch ps (drop n s))"

definition report_pattern :: "string \<Rightarrow> piece list" where
  "report_pattern extension =
     [Lit ''report_'', Digits 8, Lit ''_'', Digits 6, Lit ''.'', Lit extension]"

section \<open>The clock\<close>

text \<open>
  \<open>datetime.now()\<close> reads the system clock; the reading is an argument of the model.
  A \<open>datetime\<close> object keeps its fields within the ranges of \<open>valid_datetime\<close>.
\<close>

record datetime =
  year :: nat
  month :: nat
  day :: nat
  hour :: nat
  minute :: nat
  second :: nat

definition valid_datetime :: "datetime \<Rightarrow> bool" where
  "valid_datetime t =
     (1 \<le> year t \<and> year t \<le> 9999 \<and> 1 \<le> month t \<and> month t \<le> 12 \<and>
      1 \<le> day t \<and> day t \<le> 31 \<and> hour t \<le> 23 \<and> minute t \<le> 59 \<and> second t \<le> 59)"

text \<open>
  \<open>strftime("%Y%m%d_%H%M%S")\<close>: \<open>%Y\<close> is the year in decimal (the C library does not pad
  it), the other fields are two digits each.
\<close>

definition strftime_compact :: "datetime \<Rightarrow> string" where
  "strftime_compact t =
     dec (year t) @ zfill 2 (dec (month t)) @ zfill 2 (dec (day t)) @ ''_'' @
     zfill 2 (dec (hour t)) @ zfill 2 (dec (minute t)) @ zfill 2 (dec (second t))"

text \<open>
  The other direction, to say which digits a name carries: the number that a run of
  digits denotes, and the clock reading laid out as in \<open>report_YYYYmmdd_HHMMSS\<close> (the
  year at positions 7 to 10, the second at positions 20 and 21).
\<close>

definition nat_of_digits :: "string \<Rightarrow> nat" where
  "nat_of_digits s = foldl (\<lambda>acc c. 10 * acc + (of_char c - 48)) 0 s"

definition timestamp_fields :: "string \<Rightarrow> datetime" where
  "timestamp_fields s =
     \<lparr>year = nat_of_digits (take 4 (drop 7 s)),
      month = nat_of_digits (take 2 (drop 11 s)),
      day = nat_of_digits (take 2 (drop 13 s)),
      hour = nat_of_digits (take 2 (drop 16 s)),
      minute = nat_of_digits (take 2 (drop 18 s)),
      second = nat_of_digits (take 2 (drop 20 s))\<rparr>"

section \<open>Filename synthesis (\<open>get_report_filename\<close>)\<close>

definition get_report_filename :: "datetime \<Rightarrow> string option \<Rightarrow> string \<Rightarrow> string" where
  "get_report_filename now file_name extension =
     (case file_name of
        None \<Rightarrow> ''report_'' @ strftime_compact now @ ''.'' @ extension
      | Some fn \<Rightarrow>
          if strip fn = '''' then ''report_'' @ strftime_compact now @ ''.'' @ extension
          else if \<not> endswith (lower fn) (''.'' @ extension) then fn @ ''.'' @ extension
          else fn)"

section \<open>Base64 (\<open>base64.b64encode\<close> and its inverse)\<close>

type_synonym byte = "8 word"

definition b64_alphabet :: string where
  "b64_alphabet = ''ABCDEFGHIJKLMNOPQRSTUVWXYZabcdefghijklmnopqrstuvwxyz0123456789+/''"

definition b64_char :: "nat \<Rightarrow> char" where
  "b64_char i = b64_alphabet ! i"

text \<open>
  Three bytes give four characters of six bits each; a last group of one or two bytes
  is padded with \<open>=\<close> (RFC 4648, which \<open>b64encode\<close> implements).
\<close>

fun b64encode :: "byte list \<Rightarrow> string" where
  "b64encode [] = []"
| "b64encode [a] =
     [b64_char (unat a div 4), b64_char ((unat a mod 4) * 16), CHR ''='', CHR ''='']"
| "b64encode [a, b] =
     [b64_char (unat a div 4), b64_char ((unat a mod 4) * 16 + unat b div 16),
      b64_char ((unat b mod 16) * 4), CHR ''='']"
| "b64encode (a # b # c # rest) =
     [b64_char (unat a div 4), b64_char ((unat a mod 4) * 16 + unat b div 16),
      b64_char ((unat b mod 16) * 4 + unat c div 64), b64_char (unat c mod 64)]
     @ b64encode rest"

fun index_of :: "'a \<Rightarrow> 'a list \<Rightarrow> nat option" where
  "index_of x [] = None"
| "index_of x (y # ys) = (if x = y then Some 0 else map_option Suc (index_of x ys))"

definition b64_index :: "char \<Rightarrow> nat option" where
  "b64_index c = index_of c b64_alphabet"

text \<open>
  The decoder of the round trip: groups of four characters of the alphabet, the last one
  possibly ending in one or two \<open>=\<close>. Anything else is rejected (\<open>None\<close>).
\<close>

fun b64decode :: "string \<Rightarrow> byte list option" where
  "b64decode [] = Some []"
| "b64decode (c0 # c1 # c2 # c3 # rest) =
     (if c2 = CHR ''='' \<and> c3 = CHR ''='' \<and> rest = [] then
        (case (b64_index c0, b64_index c1) of
           (Some i0, Some i1) \<Rightarrow> Some [of_nat (i0 * 4 + i1 div 16)]
         | _ \<Rightarrow> None)
      else if c3 = CHR ''='' \<and> rest = [] then
        (case (b64_index c0, b64_index c1, b64_index c2) of
           (Some i0, Some i1, Some i2) \<Rightarrow>
             Some [of_nat (i0 * 4 + i1 div 16), of_nat ((i1 mod 16) * 16 + i2 div 4)]
         | _ \<Rightarrow> None)
      else
        (case (b64_index c0, b64_index c1, b64_index c2, b64_index c3) of
           (Some i0, Some i1, Some i2, Some i3) \<Rightarrow>
             (case b64decode rest of
                Some bs \<Rightarrow>
                  Some (of_nat (i0 * 4 + i1 div 16) # of_nat ((i1 mod 16) * 16 + i2 div 4)
                        # of_nat ((i2 mod 4) * 64 + i3) # bs)
              | None \<Rightarrow> None)
         | _ \<Rightarrow> None))"
| "b64decode _ = None"

section \<open>JSON values\<close>

text \<open>
  What \<open>response.json()\<close> returns: \<open>None\<close>, a bool, an int, a float (mantissa and binary
  exponent), a str, a list or a dict. A dict is the list of its items, each key once;
  \<open>map_of\<close> looks a key up.
\<close>

datatype json =
    JNull
  | JBool bool
  | JInt int
  | JFloat int int
  | JString string
  | JArray "json list"
  | JObject "(string \<times> json) list"

text \<open>\<open>k in s\<close> on two strings: \<open>k\<close> occurs in \<open>s\<close>.\<close>

fun contains_substring :: "string \<Rightarrow> string \<Rightarrow> bool" where
  "contains_substring [] k = (k = [])"
| "contains_substring (c # s) k = (take (length k) (c # s) = k \<or> contains_substring s k)"

text \<open>
  \<open>k in data\<close> for a string \<open>k\<close>: a key of a dict, an element of a list, a substring of a
  str; on the other values Python raises \<open>TypeError\<close> (\<open>None\<close> here).
\<close>

fun py_in :: "string \<Rightarrow> json \<Rightarrow> bool option" where
  "py_in k (JObject kvs) = Some (map_of kvs k \<noteq> None)"
| "py_in k (JArray xs) = Some (List.member xs (JString k))"
| "py_in k (JString s) = Some (contains_substring s k)"
| "py_in k _ = None"

text \<open>
  \<open>data[k]\<close> for a string \<open>k\<close>: the value of the key in a dict; \<open>KeyError\<close> when the key
  is missing and \<open>TypeError\<close> on every other value (both \<open>None\<close> here).
\<close>

fun py_getitem :: "json \<Rightarrow> string \<Rightarrow> json option" where
  "py_getitem (JObject kvs) k = map_of kvs k"
| "py_getitem _ k = None"

section \<open>Errors\<close>

text \<open>
  Every failure of the server is one constructor. \<open>app.py\<close> raises \<open>ToolError\<close> with a
  message at each of these places; the constructor names the place, in the words of the
  specification's error taxonomy:
  \<^item> \<open>ConfigurationError\<close>: "API_KEY is not configured" (\<open>make_weather_request\<close>);
  \<^item> \<open>ValidationError\<close>: "Invalid date format" (\<open>get_history_weather\<close>), and an argument
    that is not a value of the declared parameter type of a registered tool;
  \<^item> \<open>UpstreamHTTPError\<close>: "HTTP Error <status>", with the status;
  \<^item> \<open>NetworkError\<close>: "Network Error";
  \<^item> \<open>UpstreamLogicalError\<close>: "Weather API Error: <message>", with the message;
  \<^item> \<open>UnexpectedError\<close>: "An unexpected error occurred during API call";
  \<^item> \<open>IOFailure\<close>: the \<open>OSError\<close> of \<open>open\<close> on a file that cannot be read.
\<close>

datatype error =
    ConfigurationError
  | ValidationError
  | UpstreamHTTPError nat
  | NetworkError
  | UpstreamLogicalError json
  | UnexpectedError
  | IOFailure

section \<open>File packaging (\<open>handle_file_result\<close>)\<close>

text \<open>The files that can be read, with their contents.\<close>

type_synonym filesystem = "string \<rightharpoonup> byte list"

record file_descriptor =
  data :: string
  mime_type :: string
  name :: string

text \<open>\<open>os.path.basename(p)\<close> is \<open>p[p.rfind('/') + 1:]\<close>: what follows the last slash.\<close>

definition basename :: "string \<Rightarrow> string" where
  "basename p = rev (takeWhile (\<lambda>c. c \<noteq> CHR ''/'') (rev p))"

definition handle_file_result ::
  "filesystem \<Rightarrow> string \<Rightarrow> string \<Rightarrow> error + file_descriptor list" where
  "handle_file_result fs file_path mime =
     (case fs file_path of
        None \<Rightarrow> Inl IOFailure
      | Some file_data \<Rightarrow>
          Inr [\<lparr>data = b64encode file_data, mime_type = mime, name = basename file_path\<rparr>])"

section \<open>Weather query dispatch (\<open>make_weather_request\<close>)\<close>

text \<open>
  The module globals. \<open>API_KEY\<close> is the literal of \<open>app.py\<close>; the functions below take the
  credential as an argument, so that they can be stated for any value of the global.
\<close>

definition API_KEY :: string where
  "API_KEY = ''b27fe189341c46fe8ad63338251509''"



definition BASE_URL :: string where
  "BASE_URL = ''http://api.weatherapi.com/v1''"

datatype param = PStr string | PInt int

record http_request =
  url :: string
  params :: "(string \<times> param) list"
  timeout :: nat

text \<open>
  What \<open>client.get\<close> and \<open>response.json()\<close> can give: a response with its status and its
  body (\<open>None\<close> when the body is not JSON), an \<open>httpx.RequestError\<close> (connection or
  timeout), or any other exception. The upstream is a function from the request.
\<close>

datatype http_outcome =
    HTTPResponse nat "json option"
  | RequestFailure
  | OtherFailure

type_synonym upstream = "http_request \<Rightarrow> http_outcome"

text \<open>\<open>raise_for_status\<close> lets the 2xx codes pass.\<close>

definition is_success :: "nat \<Rightarrow> bool" where
  "is_success status = (200 \<le> status \<and> status \<le> 299)"

text \<open>
  \<open>{"key": API_KEY, **params}\<close>: the entry \<open>key\<close> comes first; an entry \<open>key\<close> of \<open>params\<close>
  replaces its value, and the other entries of \<open>params\<close> follow in their order.
\<close>

definition full_params :: "string \<Rightarrow> (string \<times> param) list \<Rightarrow> (string \<times> param) list" where
  "full_params api_key ps =
     (''key'', case map_of ps ''key'' of None \<Rightarrow> PStr api_key | Some v \<Rightarrow> v)
     # filter (\<lambda>(k, v). k \<noteq> ''key'') ps"

definition weather_request :: "string \<Rightarrow> string \<Rightarrow> (string \<times> param) list \<Rightarrow> http_request" where
  "weather_request api_key endpoint ps =
     \<lparr>url = BASE_URL @ ''/'' @ endpoint @ ''.json'',
      params = full_params api_key ps,
      timeout = 10\<rparr>"

text \<open>The body of the \<open>try\<close> once the response is there, with the \<open>except\<close> clauses applied.\<close>

definition check_response :: "http_outcome \<Rightarrow> error + json" where
  "check_response outcome =
     (case outcome of
        RequestFailure \<Rightarrow> Inl NetworkError
      | OtherFailure \<Rightarrow> Inl UnexpectedError
      | HTTPResponse status body \<Rightarrow>
          if \<not> is_success status then Inl (UpstreamHTTPError status)
          else
            (case body of
               None \<Rightarrow> Inl UnexpectedError
             | Some parsed \<Rightarrow>
                 (case py_in ''error'' parsed of
                    None \<Rightarrow> Inl UnexpectedError
                  | Some False \<Rightarrow> Inr parsed
                  | Some True \<Rightarrow>
                      (case py_getitem parsed ''error'' of
                         None \<Rightarrow> Inl UnexpectedError
                       | Some err \<Rightarrow>
                           (case py_getitem err ''message'' of
                              None \<Rightarrow> Inl UnexpectedError
                            | Some msg \<Rightarrow> Inl (UpstreamLogicalError msg))))))"

text \<open>
  The result of a call comes with the list of the HTTP requests it has issued, in order.
\<close>

definition make_weather_request ::
  "string \<Rightarrow> upstream \<Rightarrow> string \<Rightarrow> (string \<times> param) list \<Rightarrow> (error + json) \<times> http_request list" where
  "make_weather_request api_key net endpoint ps =
     (if api_key = ''YOUR_API_TOKEN'' then (Inl ConfigurationError, [])
      else
        (let request = weather_request api_key endpoint ps
         in (check_response (net request), [request])))"

section \<open>\<open>datetime.strptime(dt, '%Y-%m-%d')\<close>\<close>

text \<open>
  \<open>strptime\<close> compiles the format into the regular expression
  \<open>(?P<Y>\d\d\d\d)-(?P<m>1[0-2]|0[1-9]|[1-9])-(?P<d>3[0-1]|[1-2]\d|0[1-9]|[1-9]| [1-9])\<close>,
  matches it at the start of the string, refuses what is left over, converts the three
  groups with \<open>int\<close> and builds the date, which checks the ranges. Every failure is a
  \<open>ValueError\<close> (\<open>None\<close> here).
\<close>

definition in_range :: "char \<Rightarrow> char \<Rightarrow> char \<Rightarrow> bool" where
  "in_range lo hi c = ((of_char lo :: nat) \<le> of_char c \<and> (of_char c :: nat) \<le> of_char hi)"

text \<open>A sequence of character classes, matched at the start: the text matched and the rest.\<close>

fun match_seq :: "(char \<Rightarrow> bool) list \<Rightarrow> string \<Rightarrow> (string \<times> string) option" where
  "match_seq [] s = Some ([], s)"
| "match_seq (p # ps) [] = None"
| "match_seq (p # ps) (c # s) =
     (if p c then map_option (\<lambda>(m, r). (c # m, r)) (match_seq ps s) else None)"

text \<open>
  Alternatives are tried from left to right; one that matches is kept only if the rest
  of the expression (the continuation) matches after it.
\<close>

fun first_alt ::
  "(char \<Rightarrow> bool) list list \<Rightarrow> string \<Rightarrow> (string \<Rightarrow> string \<Rightarrow> 'a option) \<Rightarrow> 'a option" where
  "first_alt [] s k = None"
| "first_alt (alt # alts) s k =
     (case match_seq alt s of
        None \<Rightarrow> first_alt alts s k
      | Some (m, r) \<Rightarrow> (case k m r of None \<Rightarrow> first_alt alts s k | Some res \<Rightarrow> Some res))"

definition month_alts :: "(char \<Rightarrow> bool) list list" where
  "month_alts =
     [[(=) CHR ''1'', in_range CHR ''0'' CHR ''2''],
      [(=) CHR ''0'', in_range CHR ''1'' CHR ''9''],
      [in_range CHR ''1'' CHR ''9'']]"

definition day_alts :: "(char \<Rightarrow> bool) list list" where
  "day_alts =
     [[(=) CHR ''3'', in_range CHR ''0'' CHR ''1''],
      [in_range CHR ''1'' CHR ''2'', is_digit],
      [(=) CHR ''0'', in_range CHR ''1'' CHR ''9''],
      [in_range CHR ''1'' CHR ''9''],
      [(=) CHR '' '', in_range CHR ''1'' CHR ''9'']]"

text \<open>The match: the groups \<open>Y\<close>, \<open>m\<close>, \<open>d\<close> and what the match has not consumed.\<close>

definition ymd_regex_match :: "string \<Rightarrow> (string \<times> string \<times> string \<times> string) option" where
  "ymd_regex_match s =
     (case match_seq [is_digit, is_digit, is_digit, is_digit] s of
        None \<Rightarrow> None
      | Some (Y, r1) \<Rightarrow>
          (case match_seq [(=) CHR ''-''] r1 of
             None \<Rightarrow> None
           | Some (_, r2) \<Rightarrow>
               first_alt month_alts r2 (\<lambda>m r3.
                 case match_seq [(=) CHR ''-''] r3 of
                   None \<Rightarrow> None
                 | Some (_, r4) \<Rightarrow>
                     first_alt day_alts r4 (\<lambda>d r5. Some (Y, m, d, r5)))))"

text \<open>\<open>int(s)\<close> on a group: digits, after a possible space.\<close>

definition int_of_group :: "string \<Rightarrow> nat" where
  "int_of_group s = foldl (\<lambda>acc c. 10 * acc + (of_char c - 48)) 0 (strip s)"

definition is_leap :: "nat \<Rightarrow> bool" where
  "is_leap y = (if y mod 100 = 0 then y mod 400 = 0 else y mod 4 = 0)"

definition days_in_month :: "nat \<Rightarrow> nat \<Rightarrow> nat" where
  "days_in_month y m =
     (if m = 2 then (if is_leap y then 29 else 28)
      else if m \<in> set [4, 6, 9, 11] then 30 else 31)"

definition strptime_ymd :: "string \<Rightarrow> (nat \<times> nat \<times> nat) option" where
  "strptime_ymd s =
     (case ymd_regex_match s of
        None \<Rightarrow> None
      | Some (Y, m, d, rest) \<Rightarrow>
          if rest \<noteq> [] then None
          else
            (let y = int_of_group Y; mo = int_of_group m; da = int_of_group d
             in if 1 \<le> y \<and> y \<le> 9999 \<and> 1 \<le> mo \<and> mo \<le> 12 \<and> 1 \<le> da \<and> da \<le> days_in_month y mo
                then Some (y, mo, da) else None))"

text \<open>The pattern \<open>YYYY-MM-DD\<close> of the documentation: four, two and two digits.\<close>

definition ymd_pattern :: "piece list" where
  "ymd_pattern = [Digits 4, Lit ''-'', Digits 2, Lit ''-'', Digits 2]"

section \<open>The weather tools\<close>


text \<open>
  The body of \<open>get_forecast_weather\<close>, on the integer it is called with: \<open>int(days)\<close> is
  \<open>days\<close> on an \<open>int\<close>, and the body has no check of its own.
\<close>

definition get_forecast_weather ::
  "string \<Rightarrow> upstream \<Rightarrow> string \<Rightarrow> int \<Rightarrow> (error + json) \<times> http_request list" where
  "get_forecast_weather api_key net q days =
     make_weather_request api_key net ''forecast'' [(''q'', PStr q), (''days'', PInt days)]"

text \<open>
  The parameter is declared \<open>days: Literal[1, 2, ..., 14]\<close>, and the function is registered
  with \<open>@mcp.tool()\<close>: the operation that a caller of the server reaches checks the
  argument against the declared type first, and refuses a value that is not one of the
  literals with a validation error, before the body runs. \<open>get_forecast_weather_tool\<close> is
  this registered operation: the check of the declared type, then the body.
\<close>

definition days_literal :: "int list" where
  "days_literal = [1, 2, 3, 4, 5, 6, 7, 8, 9, 10, 11, 12, 13, 14]"

definition get_forecast_weather_tool ::
  "string \<Rightarrow> upstream \<Rightarrow> string \<Rightarrow> int \<Rightarrow> (error + json) \<times> http_request list" where
  "get_forecast_weather_tool api_key net q days =
     (if days \<in> set days_literal then get_forecast_weather api_key net q days
      else (Inl ValidationError, []))"

definition get_history_weather ::
  "string \<Rightarrow> upstream \<Rightarrow> string \<Rightarrow> string \<Rightarrow> (error + json) \<times> http_request list" where
  "get_history_weather api_key net q dt =
     (case strptime_ymd dt of
        None \<Rightarrow> (Inl ValidationError, [])
      | Some _ \<Rightarrow> make_weather_request api_key net ''history'' [(''q'', PStr q), (''dt'', PStr dt)])"

section \<open>The operation catalog (\<open>list_tools\<close>)\<close>

datatype tool_kind = WeatherQuery | DocumentGenerator | Listing

text \<open>The functions registered with \<open>@mcp.tool()\<close>, in the order of \<open>app.py\<close>.\<close>

definition registered_tools :: "(string \<times> tool_kind) list" where
  "registered_tools =
     [(''get_current_weather'', WeatherQuery),
      (''get_forecast_weather'', WeatherQuery),
      (''get_history_weather'', WeatherQuery),
      (''generate_pdf_report'', DocumentGenerator),
      (''generate_docx_report'', DocumentGenerator),
      (''generate_png_image'', DocumentGenerator),
      (''generate_md_report'', DocumentGenerator),
      (''list_tools'', Listing)]"

text \<open>The dict that \<open>list_tools()\<close> returns, as its list of items.\<close>

definition list_tools :: "(string \<times> string list) list" where
  "list_tools =
     [(''tools'',
       [''get_current_weather'',
        ''get_forecast_weather'',
        ''get_history_weather'',
        ''generate_pdf_report'',
        ''generate_docx_report'',
        ''generate_png_image'',
        ''generate_md_report''])]"

section \<open>The agent client loop (\<open>run_mcp_agent\<close>)\<close>

text \<open>
  \<open>agent_executor.ainvoke\<close> is opaque: on an input it invokes some tools and then either
  returns a reply or raises (the exception is caught and the loop goes on). The lines
  typed by the user are a list; when it is exhausted \<open>input\<close> raises \<open>EOFError\<close>, which
  leaves the loop through the outer handler.
\<close>

record turn =
  tools_invoked :: "string list"
  reply :: "string option"

type_synonym agent = "string \<Rightarrow> turn"

datatype event = AgentStep string | ToolInvoked string | AgentReply string | TurnFailed

datatype loop_end = Quit | InputClosed

definition turn_events :: "agent \<Rightarrow> string \<Rightarrow> event list" where
  "turn_events ag user_input =
     AgentStep user_input # map ToolInvoked (tools_invoked (ag user_input)) @
     [case reply (ag user_input) of Some r \<Rightarrow> AgentReply r | None \<Rightarrow> TurnFailed]"

text \<open>The \<open>while True\<close> loop: the events, how the loop ended and the lines left unread.\<close>

fun conversation :: "agent \<Rightarrow> string list \<Rightarrow> event list \<times> loop_end \<times> string list" where
  "conversation ag [] = ([], InputClosed, [])"
| "conversation ag (user_input # rest) =
     (if lower user_input \<in> set [''quit'', ''exit''] then ([], Quit, rest)
      else
        (case conversation ag rest of
           (evs, e, unread) \<Rightarrow> (turn_events ag user_input @ evs, e, unread)))"

section \<open>Properties of filename synthesis\<close>

lemma is_digit_digit_char: "d < 10 \<Longrightarrow> is_digit (digit_char d)"
  by (simp add: is_digit_def digit_char_def)

lemma dec_digits: "list_all is_digit (dec n)"
proof (induction n rule: dec.induct)
  case (1 n)
  show ?case
  proof (cases "n < 10")
    case True
    then show ?thesis by (simp add: dec.simps [of n] is_digit_digit_char)
  next
    case False
    with 1 show ?thesis by (simp add: dec.simps [of n] is_digit_digit_char)
  qed
qed

lemma length_dec_lt10: "n < 10 \<Longrightarrow> length (dec n) = 1"
  by (simp add: dec.simps [of n])

lemma length_dec_lt100: "10 \<le> n \<Longrightarrow> n < 100 \<Longrightarrow> length (dec n) = 2"
  by (simp add: dec.simps [of n] length_dec_lt10)

lemma length_dec_lt1000: "100 \<le> n \<Longrightarrow> n < 1000 \<Longrightarrow> length (dec n) = 3"
  by (simp add: dec.simps [of n] length_dec_lt100)

lemma length_dec_lt10000: "1000 \<le> n \<Longrightarrow> n < 10000 \<Longrightarrow> length (dec n) = 4"
  by (simp add: dec.simps [of n] length_dec_lt1000)

lemma zfill2_dec:
  "n < 100 \<Longrightarrow> length (zfill 2 (dec n)) = 2 \<and> list_all is_digit (zfill 2 (dec n))"
proof (cases "n < 10")
  case True
  then show ?thesis by (simp add: zfill_def length_dec_lt10 dec_digits is_digit_def)
next
  case False
  assume "n < 100"
  with False show ?thesis by (simp add: zfill_def length_dec_lt100 dec_digits)
qed

lemma fullmatch_Lit_append: "fullmatch (Lit l # ps) (l @ s) = fullmatch ps s"
  by simp

lemma fullmatch_Digits_append:
  "length d = n \<Longrightarrow> list_all is_digit d \<Longrightarrow> fullmatch (Digits n # ps) (d @ s) = fullmatch ps s"
  by simp

lemma strip_all_space: "list_all py_isspace s \<Longrightarrow> strip s = []"
proof -
  assume "list_all py_isspace s"
  then have "dropWhile py_isspace s = []" by (induction s) simp_all
  then have "strip s = rev (dropWhile py_isspace (rev []))" by (simp only: strip_def)
  then show ?thesis by simp
qed

text \<open>
  The timestamp of a clock reading with a year of four digits: eight digits, an
  underscore, six digits.
\<close>

lemma strftime_compact_shape:
  assumes "valid_datetime t" "1000 \<le> year t"
  shows "\<exists>d8 d6. strftime_compact t = d8 @ ''_'' @ d6 \<and> length d8 = 8 \<and> length d6 = 6
           \<and> list_all is_digit d8 \<and> list_all is_digit d6"
proof -
  let ?d8 = "dec (year t) @ zfill 2 (dec (month t)) @ zfill 2 (dec (day t))"
  let ?d6 = "zfill 2 (dec (hour t)) @ zfill 2 (dec (minute t)) @ zfill 2 (dec (second t))"
  from assms have y: "length (dec (year t)) = 4"
    by (simp add: valid_datetime_def length_dec_lt10000)
  from assms have m: "month t < 100" "day t < 100" "hour t < 100" "minute t < 100" "second t < 100"
    by (simp_all add: valid_datetime_def)
  have "strftime_compact t = ?d8 @ ''_'' @ ?d6" by (simp add: strftime_compact_def)
  moreover have "length ?d8 = 8" using y m by (simp add: zfill2_dec)
  moreover have "length ?d6 = 6" using m by (simp add: zfill2_dec)
  moreover have "list_all is_digit ?d8" using m by (simp add: zfill2_dec dec_digits)
  moreover have "list_all is_digit ?d6" using m by (simp add: zfill2_dec)
  ultimately show ?thesis by blast
qed

lemma synthesized_matches:
  assumes "valid_datetime t" "1000 \<le> year t"
  shows "fullmatch (report_pattern ext) (''report_'' @ strftime_compact t @ ''.'' @ ext)"
proof -
  from strftime_compact_shape [OF assms] obtain d8 d6 where
    s: "strftime_compact t = d8 @ ''_'' @ d6" and l: "length d8 = 8" "length d6 = 6"
    and d: "list_all is_digit d8" "list_all is_digit d6" by blast
  have "fullmatch (report_pattern ext) (''report_'' @ (d8 @ ''_'' @ (d6 @ ''.'' @ ext)))"
    unfolding report_pattern_def
    by (simp only: fullmatch_Lit_append fullmatch_Digits_append [OF l(1) d(1)]
        fullmatch_Digits_append [OF l(2) d(2)]) simp
  then show ?thesis by (simp add: s)
qed

lemma get_report_filename_absent:
  "get_report_filename now None ext = ''report_'' @ strftime_compact now @ ''.'' @ ext"
  by (simp add: get_report_filename_def)

lemma get_report_filename_blank:
  "list_all py_isspace fn \<Longrightarrow>
   get_report_filename now (Some fn) ext = ''report_'' @ strftime_compact now @ ''.'' @ ext"
  by (simp add: get_report_filename_def strip_all_space)

lemma foo_examples:
  "strip ''foo'' \<noteq> []" "strip ''foo.pdf'' \<noteq> []" "strip ''FOO.PDF'' \<noteq> []"
  "\<not> endswith (lower ''foo'') ''.pdf''"
  "endswith (lower ''foo.pdf'') ''.pdf''"
  "endswith (lower ''FOO.PDF'') ''.pdf''"
  by code_simp+

text \<open>The rule on a supplied name that is not blank: kept or extended.\<close>

lemma get_report_filename_kept:
  "strip fn \<noteq> [] \<Longrightarrow> endswith (lower fn) (''.'' @ ext) \<Longrightarrow>
   get_report_filename now (Some fn) ext = fn"
  by (simp add: get_report_filename_def)

lemma get_report_filename_extended:
  "strip fn \<noteq> [] \<Longrightarrow> \<not> endswith (lower fn) (''.'' @ ext) \<Longrightarrow>
   get_report_filename now (Some fn) ext = fn @ ''.'' @ ext"
  by (simp add: get_report_filename_def)

lemma endswith_append: "endswith (a @ b) b"
  by (simp add: endswith_def)

lemma get_report_filename_any_case:
  assumes "strip (stem @ sfx) \<noteq> []" and "lower sfx = ''.'' @ ext"
  shows "get_report_filename now (Some (stem @ sfx)) ext = stem @ sfx"
proof -
  have "lower (stem @ sfx) = lower stem @ (''.'' @ ext)"
    using assms(2) by (simp add: lower_def)
  then have "endswith (lower (stem @ sfx)) (''.'' @ ext)"
    by (simp only: endswith_append)
  with assms(1) show ?thesis by (rule get_report_filename_kept)
qed

text \<open>What the digits of the timestamp denote.\<close>

lemma digit_value: "d < 10 \<Longrightarrow> (of_char (digit_char d) :: nat) - 48 = d"
  by (simp add: digit_char_def)

lemma nat_of_digits_snoc:
  "nat_of_digits (s @ [c]) = 10 * nat_of_digits s + (of_char c - 48)"
  by (simp add: nat_of_digits_def)

lemma nat_of_digits_dec: "nat_of_digits (dec n) = n"
proof (induction n rule: dec.induct)
  case (1 n)
  show ?case
  proof (cases "n < 10")
    case True
    then have "dec n = [] @ [digit_char n]" by (simp add: dec.simps [of n])
    then have "nat_of_digits (dec n) = 10 * nat_of_digits [] + (of_char (digit_char n) - 48)"
      by (simp only: nat_of_digits_snoc)
    with True show ?thesis by (simp add: digit_value nat_of_digits_def)
  next
    case False
    then have "dec n = dec (n div 10) @ [digit_char (n mod 10)]" by (simp add: dec.simps [of n])
    then have "nat_of_digits (dec n) =
        10 * nat_of_digits (dec (n div 10)) + (of_char (digit_char (n mod 10)) - 48)"
      by (simp only: nat_of_digits_snoc)
    with False 1 show ?thesis by (simp add: digit_value)
  qed
qed

lemma nat_of_digits_zeros: "nat_of_digits (replicate k (CHR ''0'') @ s) = nat_of_digits s"
  by (induction k) (simp_all add: nat_of_digits_def)

lemma nat_of_digits_zfill: "nat_of_digits (zfill w (dec n)) = n"
  by (simp add: zfill_def nat_of_digits_zeros nat_of_digits_dec)

lemma timestamp_fields_of_name:
  assumes "length Y = 4" "length M = 2" "length D = 2" "length h = 2" "length m = 2" "length s = 2"
  shows "timestamp_fields (''report_'' @ (Y @ M @ D @ ''_'' @ h @ m @ s) @ rest) =
     \<lparr>year = nat_of_digits Y, month = nat_of_digits M, day = nat_of_digits D,
      hour = nat_of_digits h, minute = nat_of_digits m, second = nat_of_digits s\<rparr>"
  using assms by (simp add: timestamp_fields_def)

lemma synthesized_carries_clock:
  assumes "valid_datetime t" "1000 \<le> year t"
  shows "timestamp_fields (''report_'' @ strftime_compact t @ ''.'' @ ext) = t"
proof -
  from assms have y: "length (dec (year t)) = 4"
    by (simp add: valid_datetime_def length_dec_lt10000)
  from assms have l: "length (zfill 2 (dec (month t))) = 2" "length (zfill 2 (dec (day t))) = 2"
    "length (zfill 2 (dec (hour t))) = 2" "length (zfill 2 (dec (minute t))) = 2"
    "length (zfill 2 (dec (second t))) = 2"
    by (simp_all add: valid_datetime_def zfill2_dec)
  have "timestamp_fields (''report_'' @ strftime_compact t @ ''.'' @ ext) =
      timestamp_fields (''report_'' @ (dec (year t) @ zfill 2 (dec (month t)) @
        zfill 2 (dec (day t)) @ ''_'' @ zfill 2 (dec (hour t)) @ zfill 2 (dec (minute t)) @
        zfill 2 (dec (second t))) @ (''.'' @ ext))"
    by (simp add: strftime_compact_def)
  also have "\<dots> = \<lparr>year = nat_of_digits (dec (year t)),
      month = nat_of_digits (zfill 2 (dec (month t))),
      day = nat_of_digits (zfill 2 (dec (day t))),
      hour = nat_of_digits (zfill 2 (dec (hour t))),
      minute = nat_of_digits (zfill 2 (dec (minute t))),
      second = nat_of_digits (zfill 2 (dec (second t)))\<rparr>"
    by (rule timestamp_fields_of_name [OF y l])
  also have "\<dots> = t" by (simp add: nat_of_digits_dec nat_of_digits_zfill)
  finally show ?thesis .
qed

text \<open>
  C1. For every filename that is not blank and every extension: a name that ends with
  the dot and the extension, in any mix of upper and lower case, is returned unchanged;
  any other name gets the dot and the extension appended. So with \<open>pdf\<close> the name \<open>foo\<close>
  becomes \<open>foo.pdf\<close>, and \<open>foo.pdf\<close> and \<open>FOO.PDF\<close> stay as they are. An absent or empty
  filename gives a name that matches \<open>report_\d{8}_\d{6}\.<extension>\<close> and whose digits
  are the clock reading, year to second (for a clock whose year has four digits).
\<close>

theorem get_report_filename_spec:
  "get_report_filename now (Some ''foo'') ''pdf'' = ''foo.pdf'' \<and>
   get_report_filename now (Some ''foo.pdf'') ''pdf'' = ''foo.pdf'' \<and>
   get_report_filename now (Some ''FOO.PDF'') ''pdf'' = ''FOO.PDF'' \<and>
   (strip fn \<noteq> [] \<and> endswith (lower fn) (''.'' @ ext) \<longrightarrow>
      get_report_filename now (Some fn) ext = fn) \<and>
   (strip fn \<noteq> [] \<and> \<not> endswith (lower fn) (''.'' @ ext) \<longrightarrow>
      get_report_filename now (Some fn) ext = fn @ ''.'' @ ext) \<and>
   (strip (stem @ sfx) \<noteq> [] \<and> lower sfx = ''.'' @ ext \<longrightarrow>
      get_report_filename now (Some (stem @ sfx)) ext = stem @ sfx) \<and>
   (valid_datetime now \<and> 1000 \<le> year now \<longrightarrow>
      fullmatch (report_pattern ext) (get_report_filename now None ext) \<and>
      timestamp_fields (get_report_filename now None ext) = now \<and>
      fullmatch (report_pattern ext) (get_report_filename now (Some '''') ext) \<and>
      timestamp_fields (get_report_filename now (Some '''') ext) = now)"
proof -
  have "get_report_filename now (Some ''foo'') ''pdf'' = ''foo.pdf''"
    using foo_examples by (simp add: get_report_filename_def)
  moreover have "get_report_filename now (Some ''foo.pdf'') ''pdf'' = ''foo.pdf''"
    using foo_examples by (simp add: get_report_filename_def)
  moreover have "get_report_filename now (Some ''FOO.PDF'') ''pdf'' = ''FOO.PDF''"
    using foo_examples by (simp add: get_report_filename_def)
  moreover have "fullmatch (report_pattern ext) (get_report_filename now None ext)"
    "timestamp_fields (get_report_filename now None ext) = now"
    if "valid_datetime now" "1000 \<le> year now"
    using synthesized_matches [OF that] synthesized_carries_clock [OF that]
    by (simp_all only: get_report_filename_absent)
  moreover have "fullmatch (report_pattern ext) (get_report_filename now (Some '''') ext)"
    "timestamp_fields (get_report_filename now (Some '''') ext) = now"
    if "valid_datetime now" "1000 \<le> year now"
    using synthesized_matches [OF that] synthesized_carries_clock [OF that]
    by (simp_all add: get_report_filename_blank)
  ultimately show ?thesis
    using get_report_filename_kept [of fn ext now] get_report_filename_extended [of fn ext now]
      get_report_filename_any_case [of stem sfx ext now]
    by blast
qed

theorem get_report_filename_spec_witness:
  "valid_datetime \<lparr>year = 2025, month = 11, day = 4, hour = 9, minute = 30, second = 5\<rparr> \<and>
   1000 \<le> year \<lparr>year = 2025, month = 11, day = 4, hour = 9, minute = 30, second = 5\<rparr> \<and>
   get_report_filename \<lparr>year = 2025, month = 11, day = 4, hour = 9, minute = 30, second = 5\<rparr>
     None ''pdf'' = ''report_20251104_093005.pdf'' \<and>
   fullmatch (report_pattern ''pdf'') ''report_20251104_093005.pdf'' \<and>
   timestamp_fields ''report_20251104_093005.pdf'' =
     \<lparr>year = 2025, month = 11, day = 4, hour = 9, minute = 30, second = 5\<rparr> \<and>
   strip ''Summary.Docx'' \<noteq> [] \<and> endswith (lower ''Summary.Docx'') (''.'' @ ''docx'') \<and>
   get_report_filename \<lparr>year = 2025, month = 11, day = 4, hour = 9, minute = 30, second = 5\<rparr>
     (Some ''Summary.Docx'') ''docx'' = ''Summary.Docx'' \<and>
   strip ''notes.txt'' \<noteq> [] \<and> \<not> endswith (lower ''notes.txt'') (''.'' @ ''md'') \<and>
   get_report_filename \<lparr>year = 2025, month = 11, day = 4, hour = 9, minute = 30, second = 5\<rparr>
     (Some ''notes.txt'') ''md'' = ''notes.txt.md''"
proof -
  let ?t = "\<lparr>year = 2025, month = 11, day = 4, hour = 9, minute = 30, second = 5\<rparr>"
  have h: "valid_datetime ?t \<and> 1000 \<le> year ?t" by (simp add: valid_datetime_def)
  have v: "get_report_filename ?t None ''pdf'' = ''report_20251104_093005.pdf''"
    by code_simp
  have k: "strip ''Summary.Docx'' \<noteq> [] \<and> endswith (lower ''Summary.Docx'') (''.'' @ ''docx'')"
    by code_simp
  have a: "strip ''notes.txt'' \<noteq> [] \<and> \<not> endswith (lower ''notes.txt'') (''.'' @ ''md'')"
    by code_simp
  from get_report_filename_spec [of ?t _ "''pdf''"] h
  have "fullmatch (report_pattern ''pdf'') (get_report_filename ?t None ''pdf'')"
    and "timestamp_fields (get_report_filename ?t None ''pdf'') = ?t"
    by blast+
  then have m: "fullmatch (report_pattern ''pdf'') ''report_20251104_093005.pdf''"
    and f: "timestamp_fields ''report_20251104_093005.pdf'' = ?t"
    by (simp_all only: v)
  from get_report_filename_spec [of ?t "''Summary.Docx''" "''docx''"] k
  have kept: "get_report_filename ?t (Some ''Summary.Docx'') ''docx'' = ''Summary.Docx''"
    by blast
  from get_report_filename_spec [of ?t "''notes.txt''" "''md''"] a
  have ext: "get_report_filename ?t (Some ''notes.txt'') ''md'' = ''notes.txt'' @ ''.'' @ ''md''"
    by blast
  then have ext': "get_report_filename ?t (Some ''notes.txt'') ''md'' = ''notes.txt.md''"
    by simp
  from h v m f k kept a ext' show ?thesis by blast
qed

text \<open>
  C10. A filename made of whitespace only is treated as an absent one: the result is
  the synthesized \<open>report_<timestamp>.<extension>\<close>, not the whitespace with the
  extension appended.
\<close>

theorem whitespace_filename_discarded:
  assumes "list_all py_isspace fn"
  shows "get_report_filename now (Some fn) ext = get_report_filename now None ext \<and>
         get_report_filename now (Some fn) ext = ''report_'' @ strftime_compact now @ ''.'' @ ext \<and>
         get_report_filename now (Some fn) ext \<noteq> fn @ ''.'' @ ext"
proof -
  have r: "get_report_filename now (Some fn) ext = ''report_'' @ strftime_compact now @ ''.'' @ ext"
    using assms by (rule get_report_filename_blank)
  have "''report_'' @ strftime_compact now @ ''.'' @ ext \<noteq> fn @ ''.'' @ ext"
  proof (cases fn)
    case Nil
    then show ?thesis by simp
  next
    case (Cons c cs)
    with assms have "py_isspace c" by simp
    then have "c \<noteq> CHR ''r''" by (auto simp: py_isspace_def)
    with Cons show ?thesis by simp
  qed
  with r show ?thesis by (simp add: get_report_filename_absent)
qed

theorem whitespace_filename_discarded_witness:
  "list_all py_isspace '' '' \<and>
   get_report_filename \<lparr>year = 2025, month = 11, day = 4, hour = 9, minute = 30, second = 5\<rparr>
     (Some '' '') ''md'' = ''report_20251104_093005.md''"
proof -
  let ?t = "\<lparr>year = 2025, month = 11, day = 4, hour = 9, minute = 30, second = 5\<rparr>"
  have h: "list_all py_isspace '' ''" by (simp add: py_isspace_def)
  have v: "''report_'' @ strftime_compact ?t @ ''.'' @ ''md'' = ''report_20251104_093005.md''"
    by code_simp
  from whitespace_filename_discarded [OF h, of ?t "''md''"]
  have "get_report_filename ?t (Some '' '') ''md'' = ''report_'' @ strftime_compact ?t @ ''.'' @ ''md''"
    by blast
  then have "get_report_filename ?t (Some '' '') ''md'' = ''report_20251104_093005.md''"
    by (simp only: v)
  with h show ?thesis by blast
qed

section \<open>Properties of Base64 and of file packaging\<close>

lemma index_of_nth: "distinct xs \<Longrightarrow> i < length xs \<Longrightarrow> index_of (xs ! i) xs = Some i"
proof (induction xs arbitrary: i)
  case Nil
  then show ?case by simp
next
  case (Cons x xs)
  show ?case
  proof (cases i)
    case 0
    then show ?thesis by simp
  next
    case (Suc j)
    with Cons.prems have "xs ! j \<in> set xs" "x \<notin> set xs" by auto
    then have "xs ! j \<noteq> x" by auto
    with Suc Cons show ?thesis by auto
  qed
qed

lemma distinct_b64_alphabet: "distinct b64_alphabet"
  by (simp add: b64_alphabet_def)

lemma length_b64_alphabet: "length b64_alphabet = 64"
  by (simp add: b64_alphabet_def)

lemma b64_index_char: "i < 64 \<Longrightarrow> b64_index (b64_char i) = Some i"
  by (simp add: b64_index_def b64_char_def index_of_nth distinct_b64_alphabet length_b64_alphabet)

lemma b64_char_not_pad: "i < 64 \<Longrightarrow> b64_char i \<noteq> CHR ''=''"
proof -
  assume "i < 64"
  then have "b64_char i \<in> set b64_alphabet"
    by (simp add: b64_char_def length_b64_alphabet)
  moreover have "CHR ''='' \<notin> set b64_alphabet" by (simp add: b64_alphabet_def)
  ultimately show ?thesis by auto
qed

lemma unat_byte: "unat (a :: byte) < 256"
  using unsigned_less [of a, where 'a = nat] by simp

text \<open>The six-bit groups are below 64, and the bytes are recovered from them.\<close>

lemma sextets:
  fixes a b c :: nat
  assumes "a < 256" "b < 256" "c < 256"
  shows "a div 4 < 64" "(a mod 4) * 16 + b div 16 < 64" "(b mod 16) * 4 + c div 64 < 64"
    "c mod 64 < 64" "(a mod 4) * 16 < 64" "(b mod 16) * 4 < 64"
  using assms by arith+

lemma regroup1:
  fixes a b :: nat
  assumes "b < 256"
  shows "a div 4 * 4 + ((a mod 4) * 16 + b div 16) div 16 = a"
proof -
  have "b div 16 < 16" using assms by simp
  then have "((a mod 4) * 16 + b div 16) div 16 = a mod 4" by simp
  then show ?thesis by simp
qed

lemma regroup2:
  fixes a b c :: nat
  assumes "b < 256" "c < 256"
  shows "(((a mod 4) * 16 + b div 16) mod 16) * 16 + ((b mod 16) * 4 + c div 64) div 4 = b"
proof -
  have "b div 16 < 16" "c div 64 < 4" using assms by simp_all
  then have "((a mod 4) * 16 + b div 16) mod 16 = b div 16"
    and "((b mod 16) * 4 + c div 64) div 4 = b mod 16" by simp_all
  then show ?thesis by simp
qed

lemma regroup3:
  fixes b c :: nat
  assumes "c < 256"
  shows "(((b mod 16) * 4 + c div 64) mod 4) * 64 + c mod 64 = c"
proof -
  have "c div 64 < 4" using assms by simp
  then have "((b mod 16) * 4 + c div 64) mod 4 = c div 64" by simp
  then show ?thesis by simp
qed

lemma regroup1_pad: "a div 4 * 4 + ((a mod 4) * 16) div 16 = (a :: nat)"
  by simp

lemma regroup2_pad:
  fixes a b :: nat
  assumes "b < 256"
  shows "(((a mod 4) * 16 + b div 16) mod 16) * 16 + ((b mod 16) * 4) div 4 = b"
  using regroup2 [of b 0 a] assms by simp

lemma b64decode_one: "b64decode (b64encode [a]) = Some [a]"
proof -
  let ?a = "unat a"
  have a: "?a < 256" by (rule unat_byte)
  have "b64decode (b64encode [a]) = Some [of_nat (?a div 4 * 4 + ((?a mod 4) * 16) div 16)]"
    using a by (simp add: b64_index_char sextets del: of_nat_add of_nat_mult)
  then show ?thesis by (simp only: regroup1_pad) simp
qed

lemma b64decode_two: "b64decode (b64encode [a, b]) = Some [a, b]"
proof -
  let ?a = "unat a" and ?b = "unat b"
  have ab: "?a < 256" "?b < 256" by (rule unat_byte)+
  have "b64decode (b64encode [a, b]) =
      Some [of_nat (?a div 4 * 4 + ((?a mod 4) * 16 + ?b div 16) div 16),
            of_nat ((((?a mod 4) * 16 + ?b div 16) mod 16) * 16 + ((?b mod 16) * 4) div 4)]"
    using ab by (simp add: b64_index_char b64_char_not_pad sextets del: of_nat_add of_nat_mult)
  then show ?thesis by (simp only: regroup1 [OF ab(2)] regroup2_pad [OF ab(2)]) simp
qed

lemma b64decode_three:
  "b64decode (b64encode (a # b # c # rest)) =
     map_option (\<lambda>bs. a # b # c # bs) (b64decode (b64encode rest))"
proof -
  let ?a = "unat a" and ?b = "unat b" and ?c = "unat c"
  have abc: "?a < 256" "?b < 256" "?c < 256" by (rule unat_byte)+
  have "b64decode (b64encode (a # b # c # rest)) =
      map_option (\<lambda>bs. of_nat (?a div 4 * 4 + ((?a mod 4) * 16 + ?b div 16) div 16)
         # of_nat ((((?a mod 4) * 16 + ?b div 16) mod 16) * 16 + ((?b mod 16) * 4 + ?c div 64) div 4)
         # of_nat ((((?b mod 16) * 4 + ?c div 64) mod 4) * 64 + ?c mod 64) # bs)
        (b64decode (b64encode rest))"
    using abc
    by (simp add: b64_index_char b64_char_not_pad sextets del: of_nat_add of_nat_mult
        split: option.splits)
  then show ?thesis
    by (simp only: regroup1 [OF abc(2)] regroup2 [OF abc(2) abc(3)] regroup3 [OF abc(3)]) simp
qed

lemma b64_roundtrip: "b64decode (b64encode bs) = Some bs"
proof (induction bs rule: b64encode.induct)
  case 1
  show ?case by simp
next
  case (2 a)
  show ?case by (rule b64decode_one)
next
  case (3 a b)
  show ?case by (rule b64decode_two)
next
  case (4 a b c rest)
  then show ?case by (simp only: b64decode_three) simp
qed

lemma basename_no_slash: "CHR ''/'' \<notin> set (basename p)"
  by (auto simp: basename_def dest: set_takeWhileD)

lemma basename_suffix:
  "\<exists>dir. p = dir @ basename p \<and> (dir = [] \<or> last dir = CHR ''/'')"
proof -
  let ?P = "\<lambda>c. c \<noteq> CHR ''/''"
  let ?dw = "dropWhile ?P (rev p)"
  have "rev ?dw @ basename p = rev (takeWhile ?P (rev p) @ ?dw)"
    by (simp only: basename_def rev_append)
  also have "\<dots> = rev (rev p)" by (simp only: takeWhile_dropWhile_id)
  finally have split: "p = rev ?dw @ basename p" by simp
  have "rev ?dw = [] \<or> last (rev ?dw) = CHR ''/''"
  proof (cases "?dw = []")
    case True
    then show ?thesis by simp
  next
    case False
    then have "\<not> ?P (hd ?dw)" by (rule hd_dropWhile)
    with False show ?thesis by (simp add: last_rev)
  qed
  with split show ?thesis by blast
qed

text \<open>
  C2. For a file that can be read, whatever the path and the MIME type,
  \<open>handle_file_result\<close> returns a list of exactly one descriptor: \<open>data\<close> is the Base64
  text of the bytes of the file, \<open>mime_type\<close> is the MIME type as passed, and \<open>name\<close> is the
  path without its directories (what follows the last slash).
\<close>

theorem handle_file_result_descriptor:
  assumes "fs file_path = Some file_data"
  shows "\<exists>d. handle_file_result fs file_path mime = Inr [d] \<and>
             data d = b64encode file_data \<and> mime_type d = mime \<and> name d = basename file_path \<and>
             CHR ''/'' \<notin> set (name d) \<and>
             (\<exists>dir. file_path = dir @ name d \<and> (dir = [] \<or> last dir = CHR ''/''))"
proof -
  let ?d = "\<lparr>data = b64encode file_data, mime_type = mime, name = basename file_path\<rparr>"
  have "handle_file_result fs file_path mime = Inr [?d]"
    using assms by (simp add: handle_file_result_def)
  moreover have "CHR ''/'' \<notin> set (name ?d)" by (simp add: basename_no_slash)
  moreover have "\<exists>dir. file_path = dir @ name ?d \<and> (dir = [] \<or> last dir = CHR ''/'')"
    using basename_suffix [of file_path] by simp
  ultimately show ?thesis by (intro exI [of _ ?d]) simp
qed

theorem handle_file_result_descriptor_witness:
  "[''out/report.pdf'' \<mapsto> [37, 80, 68, 70 :: byte]] ''out/report.pdf'' = Some [37, 80, 68, 70] \<and>
   handle_file_result [''out/report.pdf'' \<mapsto> [37, 80, 68, 70]] ''out/report.pdf'' ''application/pdf''
     = Inr [\<lparr>data = ''JVBERg=='', mime_type = ''application/pdf'', name = ''report.pdf''\<rparr>]"
proof -
  let ?fs = "[''out/report.pdf'' \<mapsto> [37, 80, 68, 70 :: byte]]"
  have h: "?fs ''out/report.pdf'' = Some [37, 80, 68, 70]" by simp
  have e: "b64encode [37, 80, 68, 70 :: byte] = ''JVBERg==''" by code_simp
  have b: "basename ''out/report.pdf'' = ''report.pdf''" by code_simp
  from handle_file_result_descriptor
      [of ?fs "''out/report.pdf''" "[37, 80, 68, 70]" "''application/pdf''", OF h]
  obtain d where
    "handle_file_result ?fs ''out/report.pdf'' ''application/pdf'' = Inr [d]"
    "data d = b64encode [37, 80, 68, 70]" "mime_type d = ''application/pdf''"
    "name d = basename ''out/report.pdf''" by blast
  then have "handle_file_result ?fs ''out/report.pdf'' ''application/pdf''
     = Inr [\<lparr>data = ''JVBERg=='', mime_type = ''application/pdf'', name = ''report.pdf''\<rparr>]"
    by (simp only: e b) simp
  with h show ?thesis by blast
qed

text \<open>
  C3. The Base64 text that packaging produces for a file of \<open>N\<close> bytes decodes back to
  exactly these bytes, so the decoded length is \<open>N\<close>.
\<close>

theorem packaged_data_roundtrip:
  assumes "fs file_path = Some file_data"
  shows "\<exists>d. handle_file_result fs file_path mime = Inr [d] \<and>
             b64decode (data d) = Some file_data \<and>
             map_option length (b64decode (data d)) = Some (length file_data)"
proof -
  let ?d = "\<lparr>data = b64encode file_data, mime_type = mime, name = basename file_path\<rparr>"
  have "handle_file_result fs file_path mime = Inr [?d]"
    using assms by (simp add: handle_file_result_def)
  moreover have "b64decode (data ?d) = Some file_data" by (simp add: b64_roundtrip)
  ultimately show ?thesis by (intro exI [of _ ?d]) simp
qed

theorem packaged_data_roundtrip_witness:
  "[''a.md'' \<mapsto> [35, 32, 82, 101, 112 :: byte]] ''a.md'' = Some [35, 32, 82, 101, 112] \<and>
   handle_file_result [''a.md'' \<mapsto> [35, 32, 82, 101, 112]] ''a.md'' ''text/markdown''
     = Inr [\<lparr>data = ''IyBSZXA='', mime_type = ''text/markdown'', name = ''a.md''\<rparr>] \<and>
   b64decode ''IyBSZXA='' = Some [35, 32, 82, 101, 112]"
proof -
  let ?fs = "[''a.md'' \<mapsto> [35, 32, 82, 101, 112 :: byte]]"
  have h: "?fs ''a.md'' = Some [35, 32, 82, 101, 112]" by simp
  have e: "b64encode [35, 32, 82, 101, 112 :: byte] = ''IyBSZXA=''" by code_simp
  have b: "basename ''a.md'' = ''a.md''" by code_simp
  have "handle_file_result ?fs ''a.md'' ''text/markdown''
     = Inr [\<lparr>data = b64encode [35, 32, 82, 101, 112], mime_type = ''text/markdown'',
             name = basename ''a.md''\<rparr>]"
    by (simp add: handle_file_result_def del: b64encode.simps)
  then have r: "handle_file_result ?fs ''a.md'' ''text/markdown''
     = Inr [\<lparr>data = ''IyBSZXA='', mime_type = ''text/markdown'', name = ''a.md''\<rparr>]"
    by (simp only: e b)
  from packaged_data_roundtrip
      [of ?fs "''a.md''" "[35, 32, 82, 101, 112]" "''text/markdown''", OF h]
  obtain d where
    "handle_file_result ?fs ''a.md'' ''text/markdown'' = Inr [d]"
    "b64decode (data d) = Some [35, 32, 82, 101, 112]" by blast
  with r have "b64decode ''IyBSZXA='' = Some [35, 32, 82, 101, 112]" by auto
  with h r show ?thesis by blast
qed

section \<open>Properties of the weather tools\<close>

lemma make_weather_request_placeholder:
  "make_weather_request ''YOUR_API_TOKEN'' net endpoint ps = (Inl ConfigurationError, [])"
  by (simp add: make_weather_request_def full_params_def)

lemma make_weather_request_configured:
  "api_key \<noteq> ''YOUR_API_TOKEN'' \<Longrightarrow>
   make_weather_request api_key net endpoint ps =
     (check_response (net (weather_request api_key endpoint ps)),
      [weather_request api_key endpoint ps])"
  by (simp add: make_weather_request_def full_params_def Let_def)

text \<open>The credential of \<open>app.py\<close> is not the placeholder: the guard lets it pass.\<close>

lemma API_KEY_configured: "API_KEY \<noteq> ''YOUR_API_TOKEN''"
  by (simp add: API_KEY_def)


lemma history_accepted_date:
  "strptime_ymd dt = Some d \<Longrightarrow>
   get_history_weather api_key net q dt =
     make_weather_request api_key net ''history'' [(''q'', PStr q), (''dt'', PStr dt)]"
  by (simp add: get_history_weather_def)

text \<open>
  C4. The claim is that every date string that does not match \<open>YYYY-MM-DD\<close> fails
  with a validation error before any network call. \<open>strptime\<close> also accepts a month and
  a day of one digit: \<open>2025-1-5\<close> does not match the pattern, the date check lets it pass,
  and the request is issued with it.
\<close>

theorem history_one_digit_date_dispatched:
  "\<not> fullmatch ymd_pattern ''2025-1-5'' \<and>
   get_history_weather API_KEY (\<lambda>r. HTTPResponse 200 (Some (JObject []))) ''London'' ''2025-1-5'' =
     (Inr (JObject []),
      [\<lparr>url = ''http://api.weatherapi.com/v1/history.json'',
        params = [(''key'', PStr API_KEY), (''q'', PStr ''London''), (''dt'', PStr ''2025-1-5'')],
        timeout = 10\<rparr>])"
proof -
  have "\<not> fullmatch ymd_pattern ''2025-1-5''" by code_simp
  moreover have "strptime_ymd ''2025-1-5'' = Some (2025, 1, 5)" by code_simp
  moreover have "check_response (HTTPResponse 200 (Some (JObject []))) = Inr (JObject [])"
    by (simp add: check_response_def is_success_def)
  ultimately show ?thesis
    by (simp add: history_accepted_date make_weather_request_configured API_KEY_configured
        weather_request_def full_params_def BASE_URL_def)
qed

lemma days_literal_range: "days \<in> set days_literal \<longleftrightarrow> 1 \<le> days \<and> days \<le> 14"
proof
  assume "days \<in> set days_literal"
  then show "1 \<le> days \<and> days \<le> 14" by (auto simp: days_literal_def)
next
  assume "1 \<le> days \<and> days \<le> 14"
  then have "days = 1 \<or> days = 2 \<or> days = 3 \<or> days = 4 \<or> days = 5 \<or> days = 6 \<or> days = 7 \<or>
      days = 8 \<or> days = 9 \<or> days = 10 \<or> days = 11 \<or> days = 12 \<or> days = 13 \<or> days = 14"
    by arith
  then show "days \<in> set days_literal" by (auto simp: days_literal_def)
qed

lemma get_forecast_weather_configured:
  "api_key \<noteq> ''YOUR_API_TOKEN'' \<Longrightarrow>
   get_forecast_weather api_key net q days =
     (check_response (net (weather_request api_key ''forecast''
        [(''q'', PStr q), (''days'', PInt days)])),
      [weather_request api_key ''forecast'' [(''q'', PStr q), (''days'', PInt days)]])"
  by (simp add: get_forecast_weather_def make_weather_request_configured)

lemma forecast_request_params:
  "params (weather_request api_key ''forecast'' [(''q'', PStr q), (''days'', PInt days)]) =
     [(''key'', PStr api_key), (''q'', PStr q), (''days'', PInt days)]"
  by (simp add: weather_request_def full_params_def)

lemma get_forecast_weather_requests:
  "list_all (\<lambda>r. map_of (params r) ''days'' = Some (PInt days))
     (snd (get_forecast_weather api_key net q days))"
proof (cases "api_key = ''YOUR_API_TOKEN''")
  case True
  then show ?thesis
    by (simp add: get_forecast_weather_def make_weather_request_placeholder)
next
  case False
  then show ?thesis
    by (simp add: get_forecast_weather_configured forecast_request_params)
qed

text \<open>
  C5. For every day count from 1 to 14 the forecast operation issues its request with
  exactly this integer as \<open>days\<close>. For every value outside of 1..14 the operation fails
  with the validation error and issues no request. No value is clamped: a request that
  the operation issues carries the day count it was called with.
\<close>

theorem forecast_days_enforced:
  "(api_key \<noteq> ''YOUR_API_TOKEN'' \<and> 1 \<le> days \<and> days \<le> 14 \<longrightarrow>
      snd (get_forecast_weather_tool api_key net q days) =
        [weather_request api_key ''forecast'' [(''q'', PStr q), (''days'', PInt days)]] \<and>
      params (hd (snd (get_forecast_weather_tool api_key net q days))) =
        [(''key'', PStr api_key), (''q'', PStr q), (''days'', PInt days)]) \<and>
   (days < 1 \<or> 14 < days \<longrightarrow>
      get_forecast_weather_tool api_key net q days = (Inl ValidationError, [])) \<and>
   list_all (\<lambda>r. map_of (params r) ''days'' = Some (PInt days))
     (snd (get_forecast_weather_tool api_key net q days))"
proof -
  have inside: "get_forecast_weather_tool api_key net q days =
      get_forecast_weather api_key net q days" if "1 \<le> days \<and> days \<le> 14"
    using that by (simp add: get_forecast_weather_tool_def days_literal_range)
  have outside: "get_forecast_weather_tool api_key net q days = (Inl ValidationError, [])"
    if "days < 1 \<or> 14 < days"
  proof -
    from that have "days \<notin> set days_literal" by (auto simp: days_literal_range)
    then show ?thesis by (simp add: get_forecast_weather_tool_def)
  qed
  have sent: "snd (get_forecast_weather_tool api_key net q days) =
        [weather_request api_key ''forecast'' [(''q'', PStr q), (''days'', PInt days)]] \<and>
      params (hd (snd (get_forecast_weather_tool api_key net q days))) =
        [(''key'', PStr api_key), (''q'', PStr q), (''days'', PInt days)]"
    if "api_key \<noteq> ''YOUR_API_TOKEN''" "1 \<le> days \<and> days \<le> 14"
    using that by (simp add: inside get_forecast_weather_configured forecast_request_params)
  have exact: "list_all (\<lambda>r. map_of (params r) ''days'' = Some (PInt days))
      (snd (get_forecast_weather_tool api_key net q days))"
  proof (cases "days \<in> set days_literal")
    case True
    then show ?thesis
      using get_forecast_weather_requests [of days api_key net q]
      by (simp add: get_forecast_weather_tool_def)
  next
    case False
    then show ?thesis by (simp add: get_forecast_weather_tool_def)
  qed
  from sent outside exact show ?thesis by blast
qed

theorem forecast_days_enforced_witness:
  "API_KEY \<noteq> ''YOUR_API_TOKEN'' \<and> (1::int) \<le> 3 \<and> (3::int) \<le> 14 \<and>
   snd (get_forecast_weather_tool API_KEY (\<lambda>r. RequestFailure) ''London'' 3) =
     [\<lparr>url = ''http://api.weatherapi.com/v1/forecast.json'',
       params = [(''key'', PStr API_KEY), (''q'', PStr ''London''), (''days'', PInt 3)],
       timeout = 10\<rparr>] \<and>
   ((15::int) < 1 \<or> (14::int) < 15) \<and>
   get_forecast_weather_tool API_KEY (\<lambda>r. RequestFailure) ''London'' 15 =
     (Inl ValidationError, []) \<and>
   ((0::int) < 1 \<or> (14::int) < 0) \<and>
   get_forecast_weather_tool API_KEY (\<lambda>r. RequestFailure) ''London'' 0 =
     (Inl ValidationError, [])"
proof -
  have k: "API_KEY \<noteq> ''YOUR_API_TOKEN''" by (rule API_KEY_configured)
  from forecast_days_enforced [of API_KEY 3 "\<lambda>r. RequestFailure" "''London''"] k
  have "snd (get_forecast_weather_tool API_KEY (\<lambda>r. RequestFailure) ''London'' 3) =
     [weather_request API_KEY ''forecast'' [(''q'', PStr ''London''), (''days'', PInt 3)]]"
    by simp
  then have a: "snd (get_forecast_weather_tool API_KEY (\<lambda>r. RequestFailure) ''London'' 3) =
     [\<lparr>url = ''http://api.weatherapi.com/v1/forecast.json'',
       params = [(''key'', PStr API_KEY), (''q'', PStr ''London''), (''days'', PInt 3)],
       timeout = 10\<rparr>]"
    by (simp add: weather_request_def full_params_def BASE_URL_def)
  from forecast_days_enforced [of API_KEY 15 "\<lambda>r. RequestFailure" "''London''"]
  have b: "get_forecast_weather_tool API_KEY (\<lambda>r. RequestFailure) ''London'' 15 =
     (Inl ValidationError, [])"
    by simp
  from forecast_days_enforced [of API_KEY 0 "\<lambda>r. RequestFailure" "''London''"]
  have c: "get_forecast_weather_tool API_KEY (\<lambda>r. RequestFailure) ''London'' 0 =
     (Inl ValidationError, [])"
    by simp
  from k a b c show ?thesis by simp
qed




text \<open>What \<open>check_response\<close> does with a 200 response, by the shape of the body.\<close>

lemma check_response_object:
  "check_response (HTTPResponse 200 (Some (JObject kvs))) =
     (case map_of kvs ''error'' of
        None \<Rightarrow> Inr (JObject kvs)
      | Some err \<Rightarrow>
          (case py_getitem err ''message'' of
             None \<Rightarrow> Inl UnexpectedError
           | Some msg \<Rightarrow> Inl (UpstreamLogicalError msg)))"
  by (simp add: check_response_def is_success_def split: option.splits)

lemma check_response_not_json: "check_response (HTTPResponse 200 None) = Inl UnexpectedError"
  by (simp add: check_response_def is_success_def)

lemma check_response_scalar:
  "parsed \<in> {JNull, JBool b, JInt i, JFloat m e} \<Longrightarrow>
   check_response (HTTPResponse 200 (Some parsed)) = Inl UnexpectedError"
  by (auto simp: check_response_def is_success_def)

lemma check_response_array:
  "check_response (HTTPResponse 200 (Some (JArray xs))) =
     (if List.member xs (JString ''error'') then Inl UnexpectedError else Inr (JArray xs))"
  by (simp add: check_response_def is_success_def)

lemma check_response_string:
  "check_response (HTTPResponse 200 (Some (JString s))) =
     (if contains_substring s ''error'' then Inl UnexpectedError else Inr (JString s))"
  by (simp add: check_response_def is_success_def)

lemmas check_response_200 =
  check_response_object check_response_not_json check_response_array check_response_string

lemma check_response_200_scalars:
  "check_response (HTTPResponse 200 (Some JNull)) = Inl UnexpectedError"
  "check_response (HTTPResponse 200 (Some (JBool b))) = Inl UnexpectedError"
  "check_response (HTTPResponse 200 (Some (JInt i))) = Inl UnexpectedError"
  "check_response (HTTPResponse 200 (Some (JFloat m e))) = Inl UnexpectedError"
  by (simp_all add: check_response_scalar)

text \<open>
  C7 as stated fails: a 200 response can raise without an embedded error object, and
  an error entry can raise without the upstream message. The body \<open>5\<close> is JSON and has
  no error object, and the dispatch raises the unexpected error; so it does when the
  body is not JSON at all; and on \<open>{"error": "quota"}\<close> the error raised is the unexpected
  one, which does not carry what the upstream sent.
\<close>

theorem error_without_embedded_error_object:
  "make_weather_request API_KEY (\<lambda>r. HTTPResponse 200 (Some (JInt 5)))
     ''current'' [(''q'', PStr ''London'')] =
     (Inl UnexpectedError,
      [\<lparr>url = ''http://api.weatherapi.com/v1/current.json'',
        params = [(''key'', PStr API_KEY), (''q'', PStr ''London'')], timeout = 10\<rparr>]) \<and>
   make_weather_request API_KEY (\<lambda>r. HTTPResponse 200 None)
     ''current'' [(''q'', PStr ''London'')] =
     (Inl UnexpectedError,
      [\<lparr>url = ''http://api.weatherapi.com/v1/current.json'',
        params = [(''key'', PStr API_KEY), (''q'', PStr ''London'')], timeout = 10\<rparr>]) \<and>
   make_weather_request API_KEY
     (\<lambda>r. HTTPResponse 200 (Some (JObject [(''error'', JString ''quota'')])))
     ''current'' [(''q'', PStr ''London'')] =
     (Inl UnexpectedError,
      [\<lparr>url = ''http://api.weatherapi.com/v1/current.json'',
        params = [(''key'', PStr API_KEY), (''q'', PStr ''London'')], timeout = 10\<rparr>])"
  by (simp add: make_weather_request_configured API_KEY_configured check_response_200
      check_response_200_scalars weather_request_def full_params_def BASE_URL_def)

text \<open>
  C7, amended. On an HTTP 200 response whose body parses to a JSON object, the dispatch
  raises an error if and only if the object has an \<open>error\<close> entry: the error that carries
  the upstream message when the entry is an object with a \<open>message\<close>, the unexpected error
  when it is not; without an \<open>error\<close> entry the parsed body is returned unchanged. The
  error with the upstream message is raised in no other case, and whatever is returned
  is the parsed body. A 200 response whose body is not JSON, or parses to null, a
  boolean or a number, or to a list or a string in which \<open>error\<close> occurs, ends in the
  unexpected error; a list or a string without it is returned unchanged.
\<close>

theorem embedded_error_iff:
  assumes "api_key \<noteq> ''YOUR_API_TOKEN''"
    and "net (weather_request api_key endpoint ps) = HTTPResponse 200 body"
  shows "(\<forall>kvs. body = Some (JObject kvs) \<longrightarrow>
            (isl (fst (make_weather_request api_key net endpoint ps)) \<longleftrightarrow>
               map_of kvs ''error'' \<noteq> None) \<and>
            (map_of kvs ''error'' = None \<longrightarrow>
               fst (make_weather_request api_key net endpoint ps) = Inr (JObject kvs)) \<and>
            (\<forall>err msg. map_of kvs ''error'' = Some err \<and> py_getitem err ''message'' = Some msg \<longrightarrow>
               fst (make_weather_request api_key net endpoint ps) =
                 Inl (UpstreamLogicalError msg)) \<and>
            (\<forall>err. map_of kvs ''error'' = Some err \<and> py_getitem err ''message'' = None \<longrightarrow>
               fst (make_weather_request api_key net endpoint ps) = Inl UnexpectedError)) \<and>
         (\<forall>msg. fst (make_weather_request api_key net endpoint ps) =
                  Inl (UpstreamLogicalError msg) \<longleftrightarrow>
               (\<exists>kvs err. body = Some (JObject kvs) \<and> map_of kvs ''error'' = Some err \<and>
                  py_getitem err ''message'' = Some msg)) \<and>
         (\<forall>v. fst (make_weather_request api_key net endpoint ps) = Inr v \<longrightarrow> body = Some v) \<and>
         (body = None \<or> body = Some JNull \<or> (\<exists>b. body = Some (JBool b)) \<or>
          (\<exists>i. body = Some (JInt i)) \<or> (\<exists>m e. body = Some (JFloat m e)) \<longrightarrow>
            fst (make_weather_request api_key net endpoint ps) = Inl UnexpectedError) \<and>
         (\<forall>xs. body = Some (JArray xs) \<longrightarrow>
            fst (make_weather_request api_key net endpoint ps) =
              (if List.member xs (JString ''error'') then Inl UnexpectedError
               else Inr (JArray xs))) \<and>
         (\<forall>s. body = Some (JString s) \<longrightarrow>
            fst (make_weather_request api_key net endpoint ps) =
              (if contains_substring s ''error'' then Inl UnexpectedError
               else Inr (JString s))) \<and>
         snd (make_weather_request api_key net endpoint ps) =
           [weather_request api_key endpoint ps]"
proof -
  let ?r = "fst (make_weather_request api_key net endpoint ps)"
  have m: "make_weather_request api_key net endpoint ps =
      (check_response (HTTPResponse 200 body), [weather_request api_key endpoint ps])"
    using assms by (simp add: make_weather_request_configured)
  then have r: "?r = check_response (HTTPResponse 200 body)" by simp
  have obj: "\<forall>kvs. body = Some (JObject kvs) \<longrightarrow>
      (isl ?r \<longleftrightarrow> map_of kvs ''error'' \<noteq> None) \<and>
      (map_of kvs ''error'' = None \<longrightarrow> ?r = Inr (JObject kvs)) \<and>
      (\<forall>err msg. map_of kvs ''error'' = Some err \<and> py_getitem err ''message'' = Some msg \<longrightarrow>
         ?r = Inl (UpstreamLogicalError msg)) \<and>
      (\<forall>err. map_of kvs ''error'' = Some err \<and> py_getitem err ''message'' = None \<longrightarrow>
         ?r = Inl UnexpectedError)"
    by (auto simp: r check_response_object split: option.splits)
  have logical: "\<forall>msg. ?r = Inl (UpstreamLogicalError msg) \<longleftrightarrow>
      (\<exists>kvs err. body = Some (JObject kvs) \<and> map_of kvs ''error'' = Some err \<and>
         py_getitem err ''message'' = Some msg)"
  proof (cases body)
    case None
    then show ?thesis by (simp add: r check_response_not_json)
  next
    case (Some parsed)
    then show ?thesis
      by (cases parsed)
        (auto simp: r check_response_200 check_response_200_scalars split: option.splits)
  qed
  have returned: "\<forall>v. ?r = Inr v \<longrightarrow> body = Some v"
  proof (cases body)
    case None
    then show ?thesis by (simp add: r check_response_not_json)
  next
    case (Some parsed)
    then show ?thesis
      by (cases parsed)
        (auto simp: r check_response_200 check_response_200_scalars
          split: option.splits if_splits)
  qed
  have scalar: "body = None \<or> body = Some JNull \<or> (\<exists>b. body = Some (JBool b)) \<or>
      (\<exists>i. body = Some (JInt i)) \<or> (\<exists>m e. body = Some (JFloat m e)) \<longrightarrow>
      ?r = Inl UnexpectedError"
    by (auto simp: r check_response_not_json check_response_200_scalars)
  have arr: "\<forall>xs. body = Some (JArray xs) \<longrightarrow>
      ?r = (if List.member xs (JString ''error'') then Inl UnexpectedError else Inr (JArray xs))"
    by (simp add: r check_response_array)
  have str: "\<forall>s. body = Some (JString s) \<longrightarrow>
      ?r = (if contains_substring s ''error'' then Inl UnexpectedError else Inr (JString s))"
    by (simp add: r check_response_string)
  have sent: "snd (make_weather_request api_key net endpoint ps) =
      [weather_request api_key endpoint ps]"
    by (simp add: m)
  from obj logical returned scalar arr str sent show ?thesis by blast
qed

theorem embedded_error_iff_witness:
  "API_KEY \<noteq> ''YOUR_API_TOKEN'' \<and>
   make_weather_request API_KEY
     (\<lambda>r. HTTPResponse 200 (Some (JObject
        [(''error'', JObject [(''code'', JInt 1006), (''message'', JString ''No matching location found.'')])])))
     ''current'' [(''q'', PStr ''Nowhere'')] =
     (Inl (UpstreamLogicalError (JString ''No matching location found.'')),
      [weather_request API_KEY ''current'' [(''q'', PStr ''Nowhere'')]]) \<and>
   make_weather_request API_KEY
     (\<lambda>r. HTTPResponse 200 (Some (JObject [(''location'', JString ''London'')])))
     ''current'' [(''q'', PStr ''London'')] =
     (Inr (JObject [(''location'', JString ''London'')]),
      [weather_request API_KEY ''current'' [(''q'', PStr ''London'')]]) \<and>
   make_weather_request API_KEY (\<lambda>r. HTTPResponse 200 (Some JNull))
     ''current'' [(''q'', PStr ''London'')] =
     (Inl UnexpectedError, [weather_request API_KEY ''current'' [(''q'', PStr ''London'')]])"
proof -
  let ?bad = "[(''error'', JObject [(''code'', JInt 1006),
      (''message'', JString ''No matching location found.'')])]"
  let ?good = "[(''location'', JString ''London'')]"
  have k: "API_KEY \<noteq> ''YOUR_API_TOKEN''" by (rule API_KEY_configured)
  from embedded_error_iff
    [of API_KEY "\<lambda>r. HTTPResponse 200 (Some (JObject ?bad))" "''current''"
      "[(''q'', PStr ''Nowhere'')]" "Some (JObject ?bad)", OF k refl]
  have a: "fst (make_weather_request API_KEY (\<lambda>r. HTTPResponse 200 (Some (JObject ?bad)))
      ''current'' [(''q'', PStr ''Nowhere'')]) =
      Inl (UpstreamLogicalError (JString ''No matching location found.''))"
    and a': "snd (make_weather_request API_KEY (\<lambda>r. HTTPResponse 200 (Some (JObject ?bad)))
      ''current'' [(''q'', PStr ''Nowhere'')]) =
      [weather_request API_KEY ''current'' [(''q'', PStr ''Nowhere'')]]"
    by simp_all
  from embedded_error_iff
    [of API_KEY "\<lambda>r. HTTPResponse 200 (Some (JObject ?good))" "''current''"
      "[(''q'', PStr ''London'')]" "Some (JObject ?good)", OF k refl]
  have b: "fst (make_weather_request API_KEY (\<lambda>r. HTTPResponse 200 (Some (JObject ?good)))
      ''current'' [(''q'', PStr ''London'')]) = Inr (JObject ?good)"
    and b': "snd (make_weather_request API_KEY (\<lambda>r. HTTPResponse 200 (Some (JObject ?good)))
      ''current'' [(''q'', PStr ''London'')]) =
      [weather_request API_KEY ''current'' [(''q'', PStr ''London'')]]"
    by simp_all
  from embedded_error_iff
    [of API_KEY "\<lambda>r. HTTPResponse 200 (Some JNull)" "''current''"
      "[(''q'', PStr ''London'')]" "Some JNull", OF k refl]
  have c: "fst (make_weather_request API_KEY (\<lambda>r. HTTPResponse 200 (Some JNull))
      ''current'' [(''q'', PStr ''London'')]) = Inl UnexpectedError"
    and c': "snd (make_weather_request API_KEY (\<lambda>r. HTTPResponse 200 (Some JNull))
      ''current'' [(''q'', PStr ''London'')]) =
      [weather_request API_KEY ''current'' [(''q'', PStr ''London'')]]"
    by simp_all
  from k a a' b b' c c' show ?thesis by (simp add: prod_eq_iff)
qed

section \<open>Properties of the catalog and of the agent loop\<close>

text \<open>
  C8. \<open>list_tools\<close> has no argument and returns the dict with the single key \<open>tools\<close>,
  whose value is the list of the seven operation names: the three weather queries, then
  the four document generators, in the order of their registration, each once.
\<close>

theorem list_tools_catalog:
  "\<exists>names. list_tools = [(''tools'', names)] \<and> length names = 7 \<and> distinct names \<and>
     names = map fst (filter (\<lambda>(n, k). k = WeatherQuery) registered_tools) @
             map fst (filter (\<lambda>(n, k). k = DocumentGenerator) registered_tools) \<and>
     length (filter (\<lambda>(n, k). k = WeatherQuery) registered_tools) = 3 \<and>
     length (filter (\<lambda>(n, k). k = DocumentGenerator) registered_tools) = 4 \<and>
     names = [''get_current_weather'', ''get_forecast_weather'', ''get_history_weather'',
              ''generate_pdf_report'', ''generate_docx_report'', ''generate_png_image'',
              ''generate_md_report'']"
  by (simp add: list_tools_def registered_tools_def)

lemma conversation_quit:
  "lower x \<in> set [''quit'', ''exit''] \<Longrightarrow> conversation ag (x # rest) = ([], Quit, rest)"
  by simp

lemma conversation_step:
  "lower x \<notin> set [''quit'', ''exit''] \<Longrightarrow>
   conversation ag (x # rest) =
     (turn_events ag x @ fst (conversation ag rest),
      fst (snd (conversation ag rest)), snd (snd (conversation ag rest)))"
  by (simp add: case_prod_beta)

lemma conversation_until_quit:
  "list_all (\<lambda>y. lower y \<notin> set [''quit'', ''exit'']) pre \<Longrightarrow>
   lower x \<in> set [''quit'', ''exit''] \<Longrightarrow>
   conversation ag (pre @ x # post) = (concat (map (turn_events ag) pre), Quit, post)"
proof (induction pre)
  case Nil
  then show ?case by (simp only: append_Nil conversation_quit) simp
next
  case (Cons y pre)
  then have y: "lower y \<notin> set [''quit'', ''exit'']"
    and rest: "conversation ag (pre @ x # post) = (concat (map (turn_events ag) pre), Quit, post)"
    by simp_all
  have "conversation ag ((y # pre) @ x # post) = conversation ag (y # (pre @ x # post))"
    by simp
  also have "\<dots> = (turn_events ag y @ concat (map (turn_events ag) pre), Quit, post)"
    by (simp only: conversation_step [OF y] rest fst_conv snd_conv)
  finally show ?case by simp
qed

text \<open>
  C9. In the loop of the agent client, an input that is \<open>quit\<close> or \<open>exit\<close> once put in
  lower case ends the session; the events of the session are those of the inputs before
  it, so no agent step and no tool invocation follows it, and the later lines are left
  unread. Any other input starts an agent step on that input, and the loop goes on with
  the next line.
\<close>

theorem quit_ends_session:
  "(lower x \<in> set [''quit'', ''exit''] \<longrightarrow> conversation ag (x # rest) = ([], Quit, rest)) \<and>
   (lower x \<notin> set [''quit'', ''exit''] \<longrightarrow>
      conversation ag (x # rest) =
        (turn_events ag x @ fst (conversation ag rest),
         fst (snd (conversation ag rest)), snd (snd (conversation ag rest))) \<and>
      hd (turn_events ag x) = AgentStep x) \<and>
   (list_all (\<lambda>y. lower y \<notin> set [''quit'', ''exit'']) pre \<and> lower x \<in> set [''quit'', ''exit''] \<longrightarrow>
      conversation ag (pre @ x # post) = (concat (map (turn_events ag) pre), Quit, post))"
proof -
  have "hd (turn_events ag x) = AgentStep x" by (simp add: turn_events_def)
  then show ?thesis
    using conversation_quit [of x ag rest] conversation_step [of x ag rest]
      conversation_until_quit [of pre x ag post]
    by blast
qed

theorem quit_ends_session_witness:
  "lower ''QUIT'' \<in> set [''quit'', ''exit''] \<and> lower ''Exit'' \<in> set [''quit'', ''exit''] \<and>
   lower ''weather in Paris?'' \<notin> set [''quit'', ''exit''] \<and>
   conversation (\<lambda>s. \<lparr>tools_invoked = [''get_current_weather''], reply = Some ''Sunny''\<rparr>)
     [''weather in Paris?'', ''QUIT'', ''make a pdf''] =
     ([AgentStep ''weather in Paris?'', ToolInvoked ''get_current_weather'', AgentReply ''Sunny''],
      Quit, [''make a pdf''])"
proof -
  let ?ag = "\<lambda>s :: string. \<lparr>tools_invoked = [''get_current_weather''], reply = Some ''Sunny''\<rparr>"
  have q: "lower ''QUIT'' \<in> set [''quit'', ''exit'']" by code_simp
  have e: "lower ''Exit'' \<in> set [''quit'', ''exit'']" by code_simp
  have p: "lower ''weather in Paris?'' \<notin> set [''quit'', ''exit'']" by code_simp
  then have pre: "list_all (\<lambda>y. lower y \<notin> set [''quit'', ''exit'']) [''weather in Paris?'']"
    by simp
  from quit_ends_session [of "''QUIT''" ?ag _ "[''weather in Paris?'']" "[''make a pdf'']"] pre q
  have "conversation ?ag ([''weather in Paris?''] @ ''QUIT'' # [''make a pdf'']) =
      (concat (map (turn_events ?ag) [''weather in Paris?'']), Quit, [''make a pdf''])"
    by blast
  then have "conversation ?ag [''weather in Paris?'', ''QUIT'', ''make a pdf''] =
     ([AgentStep ''weather in Paris?'', ToolInvoked ''get_current_weather'', AgentReply ''Sunny''],
      Quit, [''make a pdf''])"
    by (simp add: turn_events_def)
  with q e p show ?thesis by blast
qed

section \<open>The failure cases next to the properties above\<close>

text \<open>A path that cannot be read: \<open>open\<close> raises and nothing is packaged.\<close>

lemma handle_file_result_missing:
  "fs file_path = None \<Longrightarrow> handle_file_result fs file_path mime = Inl IOFailure"
  by (simp add: handle_file_result_def)

text \<open>Statuses outside 2xx and connection failures.\<close>

lemma check_response_status:
  "\<not> is_success status \<Longrightarrow>
   check_response (HTTPResponse status body) = Inl (UpstreamHTTPError status)"
  by (simp add: check_response_def)

lemma check_response_network: "check_response RequestFailure = Inl NetworkError"
  by (simp add: check_response_def)


end
